theory Spec2Isabelle
  imports Complex_Main "HOL-Library.AList"
begin

section \<open>JavaScript values read by the room engine\<close>

text \<open>
  The server (\<^verbatim>\<open>src/app/api/ws/route-redis.ts\<close>) destructures its request payload
  \<^verbatim>\<open>as any\<close>, so the stroke width and the cursor coordinates are arbitrary JavaScript
  values. A number is a finite value, NaN or an infinity. Every other value (string, array,
  object) is represented by the two things the code observes of it: its truthiness
  (ToBoolean) and its numeric conversion (ToNumber).
\<close>

datatype jsnum = Fin real | NaN | PosInf | NegInf

datatype jsval =
    JNumber jsnum
  | JUndefined
  | JNull
  | JBool bool
  | JOther bool jsnum

fun to_boolean :: "jsval \<Rightarrow> bool" where
  "to_boolean (JNumber (Fin r)) = (r \<noteq> 0)"
| "to_boolean (JNumber NaN) = False"
| "to_boolean (JNumber PosInf) = True"
| "to_boolean (JNumber NegInf) = True"
| "to_boolean JUndefined = False"
| "to_boolean JNull = False"
| "to_boolean (JBool b) = b"
| "to_boolean (JOther t n) = t"

fun to_number :: "jsval \<Rightarrow> jsnum" where
  "to_number (JNumber n) = n"
| "to_number JUndefined = NaN"
| "to_number JNull = Fin 0"
| "to_number (JBool b) = Fin (if b then 1 else 0)"
| "to_number (JOther t n) = n"

text \<open>\<^verbatim>\<open>a || b\<close>: the left operand when it is truthy, the right one otherwise.\<close>

definition js_or :: "jsval \<Rightarrow> jsval \<Rightarrow> jsval" where
  "js_or a b = (if to_boolean a then a else b)"

text \<open>\<^verbatim>\<open>typeof v === 'number'\<close>\<close>

fun is_number :: "jsval \<Rightarrow> bool" where
  "is_number (JNumber n) = True"
| "is_number v = False"

text \<open>The order of non-NaN numbers, then \<^verbatim>\<open>Math.min\<close> and \<^verbatim>\<open>Math.max\<close> of two
  arguments: NaN as soon as one argument is NaN.\<close>

fun num_le :: "jsnum \<Rightarrow> jsnum \<Rightarrow> bool" where
  "num_le (Fin a) (Fin b) = (a \<le> b)"
| "num_le NegInf b = True"
| "num_le a PosInf = True"
| "num_le a b = False"

definition Math_min :: "jsnum \<Rightarrow> jsnum \<Rightarrow> jsnum" where
  "Math_min a b = (if a = NaN then NaN else if b = NaN then NaN else if num_le a b then a else b)"

definition Math_max :: "jsnum \<Rightarrow> jsnum \<Rightarrow> jsnum" where
  "Math_max a b = (if a = NaN then NaN else if b = NaN then NaN else if num_le a b then b else a)"

section \<open>Data model (\<^verbatim>\<open>src/lib/drawing-types.ts\<close>)\<close>

record Point =
  pt_x :: jsval
  pt_y :: jsval
  pt_pressure :: jsval

datatype ToolType = Brush | Eraser | Line | Rectangle | Circle | Fill

record Stroke =
  stroke_id :: string
  stroke_userId :: string
  points :: "Point list"
  color :: string
  width :: jsnum
  tool :: ToolType
  stroke_timestamp :: nat
  startPoint :: "Point option"
  endPoint :: "Point option"
  filled :: "bool option"

datatype OperationType = Op_stroke_add | Op_stroke_remove | Op_clear

record Operation =
  op_id :: string
  op_type :: OperationType
  op_stroke :: "Stroke option"
  op_affectedStrokeIds :: "string list option"
  op_userId :: string
  op_userName :: string
  op_timestamp :: nat

record UserCursor =
  cursor_userId :: string
  cursor_x :: jsval
  cursor_y :: jsval
  cursor_color :: string
  cursor_name :: string
  cursor_isDrawing :: bool
  lastUpdate :: "nat option"

record User =
  user_id :: string
  user_name :: string
  user_color :: string
  joinedAt :: nat
  isOnline :: bool

text \<open>
  \<^verbatim>\<open>interface RoomState\<close> of the server. A JavaScript \<^verbatim>\<open>Map\<close> keeps its entries in
  insertion order, so it is an association list: \<^verbatim>\<open>set\<close> replaces the value of a present key
  in place and appends an absent one (\<^const>\<open>AList.update\<close>), \<^verbatim>\<open>delete\<close> drops the key
  (\<^const>\<open>AList.delete\<close>), \<^verbatim>\<open>get\<close> is \<^const>\<open>map_of\<close> and \<^verbatim>\<open>size\<close> is the length.
\<close>

record RoomState =
  strokes :: "Stroke list"
  operations :: "Operation list"
  redoStack :: "Operation list"
  users :: "(string \<times> User) list"
  cursors :: "(string \<times> UserCursor) list"

text \<open>\<^verbatim>\<open>new Map(entries)\<close>: the entries are set one after the other.\<close>

definition new_Map :: "('k \<times> 'v) list \<Rightarrow> ('k \<times> 'v) list" where
  "new_Map entries = fold (\<lambda>(k, v) m. AList.update k v m) entries []"

section \<open>Messages on the wire\<close>

text \<open>
  A \<^verbatim>\<open>WSMessage\<close> is \<^verbatim>\<open>{type, roomId, userId, payload, timestamp}\<close>; the constructor of
  the payload stands for the \<^verbatim>\<open>type\<close> tag. A field that one side may leave out of the
  object it builds is an option: \<open>None\<close> is JavaScript's \<^verbatim>\<open>undefined\<close>.
  The fields are, in order:
  \<^item> sync_state: strokes, users, cursors, yourUser, operations, canUndo, canRedo;
  \<^item> stroke_update: strokeId, points, endPoint;
  \<^item> stroke_end: strokeId, stroke, operation, canUndo, canRedo;
  \<^item> cursor_move: the cursor (userId, x, y, isDrawing, color, name);
  \<^item> undo and redo: operation, strokes, canUndo, canRedo;
  \<^item> clear: canUndo, canRedo.
\<close>

datatype Payload =
    P_sync_state "Stroke list" "User list" "UserCursor list" User
      "Operation list option" "bool option" "bool option"
  | P_user_joined User
  | P_user_left string
  | P_stroke_start Stroke
  | P_stroke_update string "Point list" "Point option"
  | P_stroke_end string Stroke "Operation option" "bool option" "bool option"
  | P_cursor_move UserCursor
  | P_undo Operation "Stroke list option" "bool option" "bool option"
  | P_redo Operation "Stroke list option" "bool option" "bool option"
  | P_clear "bool option" "bool option"
  | P_notification string

record WSMessage =
  msg_roomId :: string
  msg_userId :: string
  msg_payload :: Payload
  msg_timestamp :: nat

text \<open>
  The request a client posts, by its \<^verbatim>\<open>type\<close>, with the payload fields the handler
  destructures. \<open>R_stroke_update\<close> carries \<open>None\<close> for a \<^verbatim>\<open>points\<close> that is not an array.
  \<open>R_other\<close> is any type without a case in the switch (join, leave, save_session,
  load_session, ...).
\<close>

datatype Request =
    R_stroke_start string Point string jsval ToolType
  | R_stroke_update string "Point list option" "Point option"
  | R_stroke_end string Stroke
  | R_cursor_move jsval jsval bool
  | R_undo
  | R_redo
  | R_clear
  | R_notification string
  | R_other

section \<open>The Redis-backed server (\<^verbatim>\<open>src/app/api/ws/route-redis.ts\<close>)\<close>

text \<open>
  The file holds the routes twice. The model follows the first copy. The second, tuned for
  latency, differs in the switch only in that it relays all the points of a \<^verbatim>\<open>stroke_update\<close>
  instead of the first 20, does not check the coordinates of a \<^verbatim>\<open>cursor_move\<close> and has no
  \<^verbatim>\<open>notification\<close> case.
\<close>

text \<open>
  What a handler reads from its surroundings: the clock (\<^verbatim>\<open>Date.now()\<close>), the identifier
  that \<^verbatim>\<open>generateId()\<close> returns and the colour that \<^verbatim>\<open>getRandomUserColor()\<close> draws.
  One request reads the clock several times; the model gives all these reads one value.
\<close>

record Env =
  now :: nat
  newId :: string
  randomColor :: string

text \<open>
  The Redis store maps a key to the saved JSON document and the expiry, in seconds, it was
  written with. The model takes the Redis commands to succeed and the JSON round trip to
  give back the saved value.
\<close>

type_synonym redis = "string \<rightharpoonup> (nat \<times> RoomState)"

definition room_key :: "string \<Rightarrow> string" where
  "room_key roomId = ''room:'' @ roomId"

definition channel :: "string \<Rightarrow> string" where
  "channel roomId = ''room:'' @ roomId @ '':messages''"

definition empty_room :: RoomState where
  "empty_room = \<lparr>strokes = [], operations = [], redoStack = [], users = [], cursors = []\<rparr>"

definition getRoom :: "redis \<Rightarrow> string \<Rightarrow> RoomState" where
  "getRoom db roomId =
     (case db (room_key roomId) of
        Some (ttl, parsed) \<Rightarrow>
          parsed\<lparr>users := new_Map (users parsed), cursors := new_Map (cursors parsed)\<rparr>
      | None \<Rightarrow> empty_room)"

definition saveRoom :: "redis \<Rightarrow> string \<Rightarrow> RoomState \<Rightarrow> redis" where
  "saveRoom db roomId room = db(room_key roomId \<mapsto> (86400, room))"

definition mk_msg :: "Env \<Rightarrow> string \<Rightarrow> string \<Rightarrow> Payload \<Rightarrow> WSMessage" where
  "mk_msg env roomId userId p =
     \<lparr>msg_roomId = roomId, msg_userId = userId, msg_payload = p, msg_timestamp = now env\<rparr>"

text \<open>\<^verbatim>\<open>searchParams.get(name) || fallback\<close>: an absent or empty parameter gives the fallback.\<close>

definition param_or :: "string option \<Rightarrow> string \<Rightarrow> string" where
  "param_or p fallback = (case p of None \<Rightarrow> fallback | Some s \<Rightarrow> if s = [] then fallback else s)"

subsection \<open>GET: joining a room\<close>

datatype get_response = RoomFull | Stream User WSMessage

text \<open>
  \<open>RoomFull\<close> is the response \<^verbatim>\<open>'Room is full'\<close> with status 503. \<open>Stream user sync\<close> is
  the event stream, whose first event is the \<^verbatim>\<open>sync_state\<close> message. The third component
  of the result lists what was published, each message with its channel.
\<close>

definition GET ::
  "Env \<Rightarrow> redis \<Rightarrow> string option \<Rightarrow> string option \<Rightarrow> string option
     \<Rightarrow> get_response \<times> redis \<times> (string \<times> WSMessage) list" where
  "GET env db roomIdParam userNameParam userIdParam =
     (let roomId = param_or roomIdParam ''default'';
          userName = param_or userNameParam ''Anonymous'';
          userId = param_or userIdParam (newId env);
          room = getRoom db roomId
      in if 100 \<le> length (users room) then (RoomFull, db, [])
         else
           let user = \<lparr>user_id = userId, user_name = userName, user_color = randomColor env,
                       joinedAt = now env, isOnline = True\<rparr>;
               room1 = room\<lparr>users := AList.update userId user (users room)\<rparr>;
               db1 = saveRoom db roomId room1;
               syncMessage = mk_msg env roomId userId
                 (P_sync_state (strokes room1) (map snd (users room1)) (map snd (cursors room1))
                    user (Some (operations room1))
                    (Some (0 < length (operations room1))) (Some (0 < length (redoStack room1))))
           in (Stream user syncMessage, db1,
               [(channel roomId, mk_msg env roomId userId (P_user_joined user))]))"

subsection \<open>The stream's cancel: a member disconnects\<close>

definition cancel ::
  "Env \<Rightarrow> redis \<Rightarrow> string \<Rightarrow> string \<Rightarrow> redis \<times> (string \<times> WSMessage) list" where
  "cancel env db roomId userId =
     (let room = getRoom db roomId;
          room1 = room\<lparr>users := AList.delete userId (users room)\<rparr>;
          room2 = room1\<lparr>cursors := AList.delete userId (cursors room1)\<rparr>
      in (saveRoom db roomId room2,
          [(channel roomId, mk_msg env roomId userId (P_user_left userId))]))"

subsection \<open>POST: drawing events\<close>

datatype post_error = MissingFields | UserNotFound | InvalidPoints | InvalidCoordinates

text \<open>
  The switch of POST. The result is an early error response, or the local \<^verbatim>\<open>room\<close> object
  as the case leaves it, whether the case called \<^verbatim>\<open>saveRoom\<close>, and the messages it
  broadcast, in order.
\<close>

fun handle ::
  "Env \<Rightarrow> string \<Rightarrow> string \<Rightarrow> User \<Rightarrow> RoomState \<Rightarrow> Request
     \<Rightarrow> post_error + (RoomState \<times> bool \<times> WSMessage list)" where
  "handle env roomId userId user room (R_stroke_start strokeId point col w ttype) =
     (let validWidth = Math_max (Fin 1) (Math_min (Fin 100) (to_number (js_or w (JNumber (Fin 4)))));
          newStroke = \<lparr>stroke_id = strokeId, stroke_userId = userId, points = [point],
                       color = col, width = validWidth, tool = ttype, stroke_timestamp = now env,
                       startPoint = Some point, endPoint = None, filled = None\<rparr>
      in Inr (room, False, [mk_msg env roomId userId (P_stroke_start newStroke)]))"
| "handle env roomId userId user room (R_stroke_update strokeId pts endPt) =
     (case pts of
        None \<Rightarrow> Inl InvalidPoints
      | Some ps \<Rightarrow>
          if length ps = 0 then Inl InvalidPoints
          else Inr (room, False,
                 [mk_msg env roomId userId (P_stroke_update strokeId (take 20 ps) endPt)]))"
| "handle env roomId userId user room (R_stroke_end strokeId stroke) =
     (let room1 = room\<lparr>strokes := strokes room @ [stroke]\<rparr>;
          operation = \<lparr>op_id = newId env, op_type = Op_stroke_add, op_stroke = Some stroke,
                       op_affectedStrokeIds = None, op_userId = userId,
                       op_userName = (if user_name user = [] then ''Unknown'' else user_name user),
                       op_timestamp = now env\<rparr>;
          room2 = room1\<lparr>operations := operations room1 @ [operation]\<rparr>;
          room3 = room2\<lparr>redoStack := []\<rparr>
      in Inr (room3, True,
           [mk_msg env roomId userId
              (P_stroke_end strokeId stroke (Some operation) (Some True) (Some False))]))"
| "handle env roomId userId user room (R_cursor_move x y isDrawing) =
     (if \<not> is_number x then Inl InvalidCoordinates
      else if \<not> is_number y then Inl InvalidCoordinates
      else
        let cursor = \<lparr>cursor_userId = userId, cursor_x = x, cursor_y = y,
                      cursor_color = user_color user, cursor_name = user_name user,
                      cursor_isDrawing = isDrawing, lastUpdate = Some (now env)\<rparr>;
            room1 = room\<lparr>cursors := AList.update userId cursor (cursors room)\<rparr>
        in Inr (room1, False,
             [mk_msg env roomId userId (P_cursor_move (cursor\<lparr>lastUpdate := None\<rparr>))]))"
| "handle env roomId userId user room R_undo =
     (if 0 < length (operations room) then
        let operation = last (operations room);
            room1 = room\<lparr>operations := butlast (operations room)\<rparr>;
            room2 = room1\<lparr>redoStack := redoStack room1 @ [operation]\<rparr>
        in Inr (room2, True,
             [mk_msg env roomId userId
                (P_undo operation None (Some (0 < length (operations room2))) (Some True))])
      else Inr (room, False, []))"
| "handle env roomId userId user room R_redo =
     (if 0 < length (redoStack room) then
        let operation = last (redoStack room);
            room1 = room\<lparr>redoStack := butlast (redoStack room)\<rparr>;
            room2 = room1\<lparr>operations := operations room1 @ [operation]\<rparr>
        in Inr (room2, True,
             [mk_msg env roomId userId
                (P_redo operation None (Some True) (Some (0 < length (redoStack room2))))])
      else Inr (room, False, []))"
| "handle env roomId userId user room R_clear =
     (let room1 = room\<lparr>strokes := []\<rparr>;
          room2 = room1\<lparr>operations := []\<rparr>;
          room3 = room2\<lparr>redoStack := []\<rparr>
      in Inr (room3, True, [mk_msg env roomId userId (P_clear None None)]))"
| "handle env roomId userId user room (R_notification body) =
     Inr (room, False, [mk_msg env roomId userId (P_notification body)])"
| "handle env roomId userId user room R_other = Inr (room, False, [])"

text \<open>
  POST itself: 400 when \<^verbatim>\<open>roomId\<close> or \<^verbatim>\<open>userId\<close> is missing, 401 when the sender is not a
  member of the room, then the switch. The store changes only where the case saved the room.
\<close>

definition POST ::
  "Env \<Rightarrow> redis \<Rightarrow> string \<Rightarrow> string \<Rightarrow> Request
     \<Rightarrow> (post_error + unit) \<times> redis \<times> (string \<times> WSMessage) list" where
  "POST env db roomId userId req =
     (if roomId = [] \<or> userId = [] then (Inl MissingFields, db, [])
      else
        let room = getRoom db roomId in
        case map_of (users room) userId of
          None \<Rightarrow> (Inl UserNotFound, db, [])
        | Some user \<Rightarrow>
            (case handle env roomId userId user room req of
               Inl e \<Rightarrow> (Inl e, db, [])
             | Inr (room1, saved, msgs) \<Rightarrow>
                 (Inr (), if saved then saveRoom db roomId room1 else db,
                  map (Pair (channel roomId)) msgs)))"

section \<open>The client reducer (\<^verbatim>\<open>src/hooks/use-collaborative-canvas.ts\<close>)\<close>

text \<open>
  The part of \<^verbatim>\<open>CollaborativeCanvasState\<close> that \<^verbatim>\<open>handleMessage\<close> writes: the connection
  status, the latency and frame-rate metrics and the notification toasts are left out. The
  flags are options because the reducer stores whatever the payload holds, also \<^verbatim>\<open>undefined\<close>.
\<close>

record ClientState =
  cl_strokes :: "Stroke list"
  cl_activeStrokes :: "(string \<times> Stroke) list"
  cl_cursors :: "(string \<times> UserCursor) list"
  cl_users :: "(string \<times> User) list"
  cl_currentUser :: "User option"
  cl_strokesCount :: nat
  cl_usersCount :: nat
  cl_operations :: "Operation list"
  cl_canUndo :: "bool option"
  cl_canRedo :: "bool option"

definition MAX_STROKES_IN_STATE :: nat where
  "MAX_STROKES_IN_STATE = 5000"

text \<open>\<^verbatim>\<open>a ?? b\<close> and, for a value that is an object or an array when present, \<^verbatim>\<open>a || b\<close>.\<close>

definition nullish_or :: "'a option \<Rightarrow> 'a \<Rightarrow> 'a" where
  "nullish_or a b = (case a of None \<Rightarrow> b | Some v \<Rightarrow> v)"

fun handleMessage :: "string \<Rightarrow> ClientState \<Rightarrow> WSMessage \<Rightarrow> ClientState" where
  "handleMessage myId prev m =
     (case msg_payload m of
        P_sync_state strks usrs curs yourUser ops canUndo canRedo \<Rightarrow>
          (let limitedStrokes =
                 (if MAX_STROKES_IN_STATE < length strks
                  then drop (length strks - MAX_STROKES_IN_STATE) strks else strks)
           in prev\<lparr>cl_strokes := limitedStrokes,
                   cl_users := new_Map (map (\<lambda>u. (user_id u, u)) usrs),
                   cl_cursors := new_Map (map (\<lambda>c. (cursor_userId c, c)) curs),
                   cl_currentUser := Some yourUser,
                   cl_operations := nullish_or ops [],
                   cl_canUndo := Some (nullish_or canUndo False),
                   cl_canRedo := Some (nullish_or canRedo False),
                   cl_strokesCount := length limitedStrokes,
                   cl_usersCount := length usrs\<rparr>)
      | P_stroke_start stroke \<Rightarrow>
          prev\<lparr>cl_activeStrokes := AList.update (stroke_id stroke) stroke (cl_activeStrokes prev)\<rparr>
      | P_stroke_update strokeId pts endPt \<Rightarrow>
          (case map_of (cl_activeStrokes prev) strokeId of
             None \<Rightarrow> prev
           | Some stroke \<Rightarrow>
               prev\<lparr>cl_activeStrokes :=
                 AList.update strokeId
                   (stroke\<lparr>points := points stroke @ pts,
                           endPoint := (case endPt of None \<Rightarrow> endPoint stroke | Some e \<Rightarrow> Some e)\<rparr>)
                   (cl_activeStrokes prev)\<rparr>)
      | P_stroke_end strokeId stroke operation canUndo canRedo \<Rightarrow>
          prev\<lparr>cl_activeStrokes := AList.delete strokeId (cl_activeStrokes prev),
                cl_strokes := cl_strokes prev @ [stroke],
                cl_strokesCount := length (cl_strokes prev) + 1,
                cl_operations :=
                  (case operation of None \<Rightarrow> cl_operations prev
                   | Some opn \<Rightarrow> cl_operations prev @ [opn]),
                cl_canUndo := Some (nullish_or canUndo True),
                cl_canRedo := Some (nullish_or canRedo False)\<rparr>
      | P_cursor_move cursor \<Rightarrow>
          (if cursor_userId cursor \<noteq> myId
           then prev\<lparr>cl_cursors := AList.update (cursor_userId cursor) cursor (cl_cursors prev)\<rparr>
           else prev)
      | P_user_joined user \<Rightarrow>
          (let newUsers = AList.update (user_id user) user (cl_users prev)
           in prev\<lparr>cl_users := newUsers, cl_usersCount := length newUsers\<rparr>)
      | P_user_left userId \<Rightarrow>
          (let newUsers = AList.delete userId (cl_users prev)
           in prev\<lparr>cl_users := newUsers,
                   cl_cursors := AList.delete userId (cl_cursors prev),
                   cl_usersCount := length newUsers\<rparr>)
      | P_undo operation strks canUndo canRedo \<Rightarrow>
          prev\<lparr>cl_strokes := nullish_or strks (cl_strokes prev),
                cl_operations := butlast (cl_operations prev),
                cl_canUndo := canUndo,
                cl_canRedo := canRedo,
                cl_strokesCount := length (nullish_or strks (cl_strokes prev))\<rparr>
      | P_redo operation strks canUndo canRedo \<Rightarrow>
          prev\<lparr>cl_strokes := nullish_or strks (cl_strokes prev),
                cl_operations := cl_operations prev @ [operation],
                cl_canUndo := canUndo,
                cl_canRedo := canRedo,
                cl_strokesCount := length (nullish_or strks (cl_strokes prev))\<rparr>
      | P_clear canUndo canRedo \<Rightarrow>
          prev\<lparr>cl_strokes := [],
                cl_activeStrokes := [],
                cl_canUndo := canUndo,
                cl_canRedo := canRedo,
                cl_strokesCount := 0\<rparr>
      | P_notification body \<Rightarrow> prev)"

text \<open>A client applies the messages of its stream one after the other.\<close>

definition deliver :: "string \<Rightarrow> ClientState \<Rightarrow> WSMessage list \<Rightarrow> ClientState" where
  "deliver myId st msgs = foldl (handleMessage myId) st msgs"

section \<open>Observations used by the properties\<close>

text \<open>The \<^verbatim>\<open>canUndo\<close> and \<^verbatim>\<open>canRedo\<close> flags of a payload that carries both.\<close>

fun carried_flags :: "Payload \<Rightarrow> (bool \<times> bool) option" where
  "carried_flags (P_sync_state strks usrs curs you ops (Some cu) (Some cr)) = Some (cu, cr)"
| "carried_flags (P_stroke_end strokeId stroke opn (Some cu) (Some cr)) = Some (cu, cr)"
| "carried_flags (P_undo opn strks (Some cu) (Some cr)) = Some (cu, cr)"
| "carried_flags (P_redo opn strks (Some cu) (Some cr)) = Some (cu, cr)"
| "carried_flags (P_clear (Some cu) (Some cr)) = Some (cu, cr)"
| "carried_flags p = None"

text \<open>The flags a room state calls for: the log is not empty, the redo stack is not empty.\<close>

definition room_flags :: "RoomState \<Rightarrow> bool \<times> bool" where
  "room_flags room = (operations room \<noteq> [], redoStack room \<noteq> [])"

text \<open>The width of the stroke that a \<^verbatim>\<open>stroke_start\<close> message announces.\<close>

fun started_width :: "WSMessage \<Rightarrow> jsnum option" where
  "started_width m = (case msg_payload m of P_stroke_start s \<Rightarrow> Some (width s) | _ \<Rightarrow> None)"

text \<open>
  A member posts one request after the other. Every request reads the room anew, so it finds
  the room as the last case that called \<^verbatim>\<open>saveRoom\<close> left it: what a case writes to its
  local room without saving is lost. The result is the room after the last request and
  everything that was broadcast, in order; a request that is answered with an error leaves
  the room as it was and broadcasts nothing.
\<close>

fun run ::
  "Env \<Rightarrow> string \<Rightarrow> string \<Rightarrow> User \<Rightarrow> RoomState \<Rightarrow> Request list
     \<Rightarrow> RoomState \<times> WSMessage list" where
  "run env roomId userId user room [] = (room, [])"
| "run env roomId userId user room (req # reqs) =
     (case handle env roomId userId user room req of
        Inl e \<Rightarrow> run env roomId userId user room reqs
      | Inr (room1, saved, msgs) \<Rightarrow>
          (case run env roomId userId user (if saved then room1 else room) reqs of
             (room2, later) \<Rightarrow> (room2, msgs @ later)))"

text \<open>
  The stores the routes can produce: what a sequence of joins, posts and disconnects, each
  with its own surroundings and arguments, makes of the empty store.
\<close>

datatype Event =
    Join Env "string option" "string option" "string option"
  | Post Env string string Request
  | Leave Env string string

fun step :: "redis \<Rightarrow> Event \<Rightarrow> redis" where
  "step db (Join env roomIdParam userNameParam userIdParam) =
     fst (snd (GET env db roomIdParam userNameParam userIdParam))"
| "step db (Post env roomId userId req) = fst (snd (POST env db roomId userId req))"
| "step db (Leave env roomId userId) = fst (cancel env db roomId userId)"

definition replay :: "Event list \<Rightarrow> redis" where
  "replay evs = foldl step Map.empty evs"



section \<open>Sample data\<close>

definition env0 :: Env where
  "env0 = \<lparr>now = 1000, newId = ''1000-op'', randomColor = ''#FF6B6B''\<rparr>"

definition alice :: User where
  "alice = \<lparr>user_id = ''A'', user_name = ''Alice'', user_color = ''#FF6B6B'',
             joinedAt = 1, isOnline = True\<rparr>"

definition pt :: "real \<Rightarrow> real \<Rightarrow> Point" where
  "pt a b = \<lparr>pt_x = JNumber (Fin a), pt_y = JNumber (Fin b), pt_pressure = JUndefined\<rparr>"

definition s1 :: Stroke where
  "s1 = \<lparr>stroke_id = ''s1'', stroke_userId = ''A'', points = [pt 0 0, pt 1 1, pt 2 3],
          color = ''#FF0000'', width = Fin 4, tool = Brush, stroke_timestamp = 900,
          startPoint = Some (pt 0 0), endPoint = None, filled = None\<rparr>"

definition s2 :: Stroke where
  "s2 = \<lparr>stroke_id = ''s2'', stroke_userId = ''B'', points = [pt 5 5, pt 6 7],
          color = ''#0000FF'', width = Fin 8, tool = Brush, stroke_timestamp = 950,
          startPoint = Some (pt 5 5), endPoint = None, filled = None\<rparr>"

definition op_of :: "Stroke \<Rightarrow> Operation" where
  "op_of s = \<lparr>op_id = ''1000-op'', op_type = Op_stroke_add, op_stroke = Some s,
              op_affectedStrokeIds = None, op_userId = ''A'', op_userName = ''Alice'',
              op_timestamp = 1000\<rparr>"

definition room_A :: RoomState where
  "room_A = empty_room\<lparr>users := [(''A'', alice)]\<rparr>"

definition db_A :: redis where
  "db_A = Map.empty(room_key ''R1'' \<mapsto> (86400, room_A))"

definition client0 :: ClientState where
  "client0 = \<lparr>cl_strokes = [], cl_activeStrokes = [], cl_cursors = [], cl_users = [],
               cl_currentUser = None, cl_strokesCount = 0, cl_usersCount = 0,
               cl_operations = [], cl_canUndo = Some False, cl_canRedo = Some False\<rparr>"

text \<open>A room of \<open>n\<close> members with the identifiers u, uu, uuu, ...\<close>

definition crowd :: "nat \<Rightarrow> (string \<times> User) list" where
  "crowd n = map (\<lambda>i. (replicate (Suc i) CHR ''u'',
                        \<lparr>user_id = replicate (Suc i) CHR ''u'', user_name = ''Guest'',
                         user_color = ''#4ECDC4'', joinedAt = i, isOnline = True\<rparr>)) [0..<n]"

text \<open>Alice joins the empty store; she commits \<open>s1\<close>; she undoes it.\<close>

definition join_A :: Event where
  "join_A = Join (env0\<lparr>now := 1\<rparr>) (Some ''R1'') (Some ''Alice'') (Some ''A'')"

definition commit_s1 :: Event where
  "commit_s1 = Post env0 ''R1'' ''A'' (R_stroke_end ''s1'' s1)"


definition db_with :: "RoomState \<Rightarrow> redis" where
  "db_with room = Map.empty(room_key ''R1'' \<mapsto> (86400, room))"

definition room_12 :: RoomState where
  "room_12 = room_A\<lparr>strokes := [s1, s2], operations := [op_of s1, op_of s2]\<rparr>"

definition db_full :: redis where
  "db_full = db_with (empty_room\<lparr>users := crowd 100\<rparr>)"

text \<open>A point whose x coordinate was not finite: \<^verbatim>\<open>JSON.stringify\<close> sends it as null.\<close>

definition null_point :: Point where
  "null_point = \<lparr>pt_x = JNull, pt_y = JNumber (Fin 0), pt_pressure = JUndefined\<rparr>"

section \<open>Maps as association lists\<close>

lemma update_fresh: "k \<notin> fst ` set al \<Longrightarrow> AList.update k v al = al @ [(k, v)]"
  by (induction al) auto

lemma length_update:
  "length (AList.update k v al) = (if map_of al k = None then Suc (length al) else length al)"
  by (induction al) auto

lemma fold_update_distinct:
  "distinct (map fst (acc @ al)) \<Longrightarrow> fold (\<lambda>(k, v) m. AList.update k v m) al acc = acc @ al"
proof (induction al arbitrary: acc)
  case Nil
  then show ?case by simp
next
  case (Cons p al)
  obtain k v where p: "p = (k, v)" by (cases p)
  from Cons.prems have fresh: "k \<notin> fst ` set acc" by (auto simp: p)
  from Cons.prems have "distinct (map fst ((acc @ [(k, v)]) @ al))" by (simp add: p)
  from Cons.IH [OF this] show ?case by (simp add: p update_fresh [OF fresh])
qed

lemma new_Map_distinct_id: "distinct (map fst al) \<Longrightarrow> new_Map al = al"
  using fold_update_distinct [of "[]" al] by (simp add: new_Map_def)

lemma fold_update_keeps_distinct:
  "distinct (map fst acc) \<Longrightarrow> distinct (map fst (fold (\<lambda>(k, v) m. AList.update k v m) al acc))"
  by (induction al arbitrary: acc) (auto simp: AList.distinct_update)

lemma distinct_new_Map: "distinct (map fst (new_Map al))"
  by (simp add: new_Map_def fold_update_keeps_distinct)

text \<open>A room read from the store has no duplicate member or cursor key.\<close>

lemma distinct_users_getRoom: "distinct (map fst (users (getRoom db roomId)))"
  by (auto simp: getRoom_def empty_room_def distinct_new_Map split: option.splits)

lemma distinct_cursors_getRoom: "distinct (map fst (cursors (getRoom db roomId)))"
  by (auto simp: getRoom_def empty_room_def distinct_new_Map split: option.splits)

lemma getRoom_saveRoom:
  "getRoom (saveRoom db roomId room) roomId
     = room\<lparr>users := new_Map (users room), cursors := new_Map (cursors room)\<rparr>"
  by (simp add: getRoom_def saveRoom_def)

lemma getRoom_db_with:
  "distinct (map fst (users room)) \<Longrightarrow> distinct (map fst (cursors room))
   \<Longrightarrow> getRoom (db_with room) ''R1'' = room"
  by (simp add: getRoom_def db_with_def new_Map_distinct_id)

lemma distinct_crowd: "distinct (map fst (crowd n))"
proof -
  have "inj_on (\<lambda>i. replicate (Suc i) CHR ''u'') (set [0..<n])"
    by (rule inj_onI) (metis length_replicate nat.inject)
  then show ?thesis
    by (simp add: crowd_def comp_def distinct_map)
qed

lemma users_db_full: "users (getRoom db_full ''R1'') = crowd 100"
  by (simp add: db_full_def getRoom_def db_with_def empty_room_def new_Map_distinct_id
      distinct_crowd)

section \<open>The stores the routes can reach\<close>













lemma replay_join_A: "replay [join_A] = db_A"
  by (simp add: replay_def join_A_def GET_def Let_def param_or_def getRoom_def saveRoom_def
      empty_room_def db_A_def room_A_def alice_def env0_def new_Map_def)

lemma db_A_db_with: "db_A = db_with room_A"
  by (simp add: db_A_def db_with_def)

lemma saveRoom_db_with: "saveRoom (db_with room) ''R1'' room1 = db_with room1"
  by (simp add: saveRoom_def db_with_def)

lemma getRoom_room_A_update:
  "getRoom (db_with (room_A\<lparr>strokes := ss, operations := os, redoStack := rs\<rparr>)) ''R1''
     = room_A\<lparr>strokes := ss, operations := os, redoStack := rs\<rparr>"
  by (rule getRoom_db_with) (simp_all add: room_A_def empty_room_def)

lemma replay_commit_s1:
  "replay [join_A, commit_s1] = db_with (room_A\<lparr>strokes := [s1], operations := [op_of s1]\<rparr>)"
proof -
  have "replay [join_A, commit_s1] = step (replay [join_A]) commit_s1"
    by (simp add: replay_def)
  also have "\<dots> = step (db_with room_A) commit_s1"
    by (simp only: replay_join_A db_A_db_with)
  also have "\<dots> = db_with (room_A\<lparr>strokes := [s1], operations := [op_of s1]\<rparr>)"
    using getRoom_room_A_update [where ss = "[]" and os = "[]" and rs = "[]"]
    by (simp add: commit_s1_def POST_def Let_def saveRoom_db_with room_A_def empty_room_def
        alice_def env0_def op_of_def)
  finally show ?thesis .
qed



section \<open>What a committed stroke does to the room\<close>

lemma handle_stroke_end:
  "handle env roomId userId usr room (R_stroke_end strokeId stroke) = Inr (room1, saved, msgs)
   \<Longrightarrow> \<exists>opn. operations room1 = operations room @ [opn] \<and> op_stroke opn = Some stroke
         \<and> strokes room1 = strokes room @ [stroke] \<and> redoStack room1 = []
         \<and> users room1 = users room \<and> cursors room1 = cursors room \<and> saved"
  by (auto simp: Let_def)

lemma fst_run_Cons:
  "fst (run env roomId userId usr room (req # reqs)) =
     (case handle env roomId userId usr room req of
        Inl e \<Rightarrow> fst (run env roomId userId usr room reqs)
      | Inr (room1, saved, msgs) \<Rightarrow>
          fst (run env roomId userId usr (if saved then room1 else room) reqs))"
  by (simp split: sum.splits prod.splits)

lemma run_stroke_ends_length:
  "length (operations (fst (run env roomId userId usr room (replicate n (R_stroke_end strokeId stroke)))))
     = length (operations room) + n"
proof (induction n arbitrary: room)
  case 0
  then show ?case by simp
next
  case (Suc n)
  obtain room1 saved msgs where
    h: "handle env roomId userId usr room (R_stroke_end strokeId stroke) = Inr (room1, saved, msgs)"
    by (simp add: Let_def)
  from handle_stroke_end [OF h]
  have len: "length (operations room1) = Suc (length (operations room))" and saved: saved
    by auto
  have "fst (run env roomId userId usr room (replicate (Suc n) (R_stroke_end strokeId stroke)))
          = fst (run env roomId userId usr room1 (replicate n (R_stroke_end strokeId stroke)))"
    by (simp only: replicate_Suc fst_run_Cons h sum.case prod.case saved if_True)
  then show ?case by (simp add: Suc.IH len)
qed

lemma clamp_finite:
  "r \<noteq> 0 \<Longrightarrow>
   Math_max (Fin 1) (Math_min (Fin 100) (to_number (js_or (JNumber (Fin r)) (JNumber (Fin 4)))))
     = Fin (max 1 (min 100 r))"
  by (auto simp: js_or_def Math_min_def Math_max_def max_def min_def)

section \<open>Undo, redo and clear\<close>

text \<open>
  C1. An undo that follows an add should pop the tail Operation, remove its stroke from the
  canonical strokes and push the Operation onto the redo stack, so that the strokes are again
  what they were before the add. The server's undo case only moves the Operation from the log
  to the redo stack: member A commits \<open>s1\<close> in a room without strokes and then undoes; the
  room still holds \<open>s1\<close>. The undo message carries no strokes, so a client that applies the
  two broadcasts keeps \<open>s1\<close> as well.
\<close>

theorem undo_after_add_keeps_stroke:
  "strokes room_A = []
   \<and> fst (run env0 ''R1'' ''A'' alice room_A [R_stroke_end ''s1'' s1])
       = room_A\<lparr>strokes := [s1], operations := [op_of s1]\<rparr>
   \<and> fst (run env0 ''R1'' ''A'' alice room_A [R_stroke_end ''s1'' s1, R_undo])
       = room_A\<lparr>strokes := [s1], redoStack := [op_of s1]\<rparr>
   \<and> cl_strokes (deliver ''B'' client0
        (snd (run env0 ''R1'' ''A'' alice room_A [R_stroke_end ''s1'' s1, R_undo]))) = [s1]"
  by (simp add: Let_def room_A_def empty_room_def env0_def op_of_def alice_def deliver_def
      mk_msg_def client0_def nullish_or_def)

text \<open>
  C2, as the code has it. A clear request empties the canonical strokes, the operation log
  and the redo stack, saves the room and broadcasts a clear message without flags; a client
  empties its strokes and its active strokes. No clear Operation is recorded and no snapshot
  is taken, so an undo that follows finds an empty log: it changes nothing and broadcasts
  nothing.
\<close>

theorem clear_resets_room:
  "handle env roomId userId usr room R_clear
     = Inr (room\<lparr>strokes := [], operations := [], redoStack := []\<rparr>, True,
            [mk_msg env roomId userId (P_clear None None)])
   \<and> handle env2 roomId userId2 usr2 (room\<lparr>strokes := [], operations := [], redoStack := []\<rparr>) R_undo
     = Inr (room\<lparr>strokes := [], operations := [], redoStack := []\<rparr>, False, [])
   \<and> cl_strokes (handleMessage myId prev (mk_msg env roomId userId (P_clear None None))) = []
   \<and> cl_activeStrokes (handleMessage myId prev (mk_msg env roomId userId (P_clear None None))) = []"
  by (simp add: Let_def mk_msg_def)

text \<open>
  The claim as stated fails: with the strokes \<open>s1, s2\<close> committed, clear leaves an empty
  operation log, not a log whose tail is a clear Operation, and clear followed by undo leaves
  the strokes empty instead of restoring \<open>s1, s2\<close>.
\<close>

theorem clear_then_undo_counterexample:
  "strokes room_12 = [s1, s2]
   \<and> fst (run env0 ''R1'' ''A'' alice room_12 [R_clear]) = room_A
   \<and> fst (run env0 ''R1'' ''A'' alice room_12 [R_clear, R_undo]) = room_A
   \<and> strokes room_A = [] \<and> operations room_A = []"
  by (simp add: Let_def room_12_def room_A_def empty_room_def)



section \<open>Committing a stroke\<close>

text \<open>
  C4. After every admitted \<^verbatim>\<open>stroke_end\<close> (the sender is a member of the room) the saved
  room has an empty redo stack and the one message broadcast carries canUndo = true and
  canRedo = false, whatever the room was before, also with a redo stack that was not empty.
\<close>

theorem stroke_end_clears_redo:
  assumes "roomId \<noteq> []" and "userId \<noteq> []"
    and "map_of (users (getRoom db roomId)) userId = Some usr"
    and "POST env db roomId userId (R_stroke_end strokeId stroke) = (resp, db1, out)"
  shows "resp = Inr () \<and> redoStack (getRoom db1 roomId) = []
         \<and> map (carried_flags \<circ> msg_payload \<circ> snd) out = [Some (True, False)]"
  using assms by (auto simp: POST_def Let_def getRoom_saveRoom mk_msg_def)

theorem stroke_end_clears_redo_witness:
  "redoStack (getRoom (db_with (room_A\<lparr>strokes := [s1], redoStack := [op_of s1]\<rparr>)) ''R1'') = [op_of s1]
   \<and> ''R1'' \<noteq> [] \<and> ''A'' \<noteq> []
   \<and> (case POST env0 (db_with (room_A\<lparr>strokes := [s1], redoStack := [op_of s1]\<rparr>)) ''R1'' ''A''
              (R_stroke_end ''s2'' s2) of
         (resp, db1, out) \<Rightarrow>
           resp = Inr () \<and> redoStack (getRoom db1 ''R1'') = []
           \<and> map (carried_flags \<circ> msg_payload \<circ> snd) out = [Some (True, False)])"
proof -
  let ?db = "db_with (room_A\<lparr>strokes := [s1], redoStack := [op_of s1]\<rparr>)"
  have room: "getRoom ?db ''R1'' = room_A\<lparr>strokes := [s1], redoStack := [op_of s1]\<rparr>"
    by (rule getRoom_db_with) (simp_all add: room_A_def empty_room_def)
  have member: "map_of (users (getRoom ?db ''R1'')) ''A'' = Some alice"
    unfolding room by (simp add: room_A_def empty_room_def)
  obtain resp db1 out where
    post: "POST env0 ?db ''R1'' ''A'' (R_stroke_end ''s2'' s2) = (resp, db1, out)"
    by (cases "POST env0 ?db ''R1'' ''A'' (R_stroke_end ''s2'' s2)")
  from stroke_end_clears_redo [OF _ _ member post] show ?thesis
    unfolding post room by simp
qed

text \<open>
  C5, as the code has it. The operation log has no retention cap. Every admitted
  \<^verbatim>\<open>stroke_end\<close> (the sender is a member of the room) appends exactly one Operation to
  the stored log and evicts none: the earlier log is kept whole and in order and the log
  grows by one. The same request appends the stroke to the stored canonical strokes and
  empties the stored redo stack.
\<close>

theorem stroke_end_appends_without_eviction:
  assumes "roomId \<noteq> []" and "userId \<noteq> []"
    and "map_of (users (getRoom db roomId)) userId = Some usr"
    and "POST env db roomId userId (R_stroke_end strokeId stroke) = (resp, db1, out)"
  shows "resp = Inr ()
         \<and> butlast (operations (getRoom db1 roomId)) = operations (getRoom db roomId)
         \<and> length (operations (getRoom db1 roomId)) = Suc (length (operations (getRoom db roomId)))
         \<and> op_stroke (last (operations (getRoom db1 roomId))) = Some stroke
         \<and> strokes (getRoom db1 roomId) = strokes (getRoom db roomId) @ [stroke]
         \<and> redoStack (getRoom db1 roomId) = []"
  using assms by (auto simp: POST_def Let_def getRoom_saveRoom)

theorem stroke_end_appends_without_eviction_witness:
  "operations (getRoom (replay [join_A, commit_s1]) ''R1'') = [op_of s1]
   \<and> (case POST env0 (replay [join_A, commit_s1]) ''R1'' ''A'' (R_stroke_end ''s2'' s2) of
        (resp, db1, out) \<Rightarrow>
          resp = Inr ()
          \<and> butlast (operations (getRoom db1 ''R1'')) = [op_of s1]
          \<and> length (operations (getRoom db1 ''R1'')) = 2
          \<and> op_stroke (last (operations (getRoom db1 ''R1''))) = Some s2
          \<and> strokes (getRoom db1 ''R1'') = [s1, s2]
          \<and> redoStack (getRoom db1 ''R1'') = [])"
proof -
  let ?db = "replay [join_A, commit_s1]"
  have room: "getRoom ?db ''R1'' = room_A\<lparr>strokes := [s1], operations := [op_of s1], redoStack := []\<rparr>"
    unfolding replay_commit_s1
    using getRoom_room_A_update [where ss = "[s1]" and os = "[op_of s1]" and rs = "[]"]
    by (simp add: room_A_def empty_room_def)
  have member: "map_of (users (getRoom ?db ''R1'')) ''A'' = Some alice"
    unfolding room by (simp add: room_A_def empty_room_def)
  obtain resp db1 out where
    post: "POST env0 ?db ''R1'' ''A'' (R_stroke_end ''s2'' s2) = (resp, db1, out)"
    by (cases "POST env0 ?db ''R1'' ''A'' (R_stroke_end ''s2'' s2)")
  from stroke_end_appends_without_eviction [OF _ _ member post] show ?thesis
    unfolding post by (simp add: room)
qed

text \<open>
  The claim as stated fails: the repository's documents name a history limit of 500
  operations, and after 501 commits by one member in a fresh room the log holds 501
  Operations.
\<close>

theorem operation_log_unbounded_counterexample:
  "length (operations (fst (run env0 ''R1'' ''A'' alice room_A (replicate 501 (R_stroke_end ''s1'' s1)))))
     = 501"
  by (simp add: run_stroke_ends_length room_A_def empty_room_def)

section \<open>Late stroke updates\<close>

text \<open>
  C6, as the code has it. A \<^verbatim>\<open>stroke_update\<close> whose strokeId names no active stroke
  changes no state: the server writes nothing to the store, and a client whose active strokes
  do not hold that id is left unchanged by everything the request broadcasts. The broadcast
  stream is affected all the same, since the server keeps no active strokes of its own: when
  the sender is a member of the room and the points are an array that is not empty, the
  request succeeds and the update, with its first 20 points, is published as one message on
  the room's channel. Otherwise the request is answered with an error and nothing is
  published.
\<close>

theorem stale_stroke_update_changes_no_state:
  assumes "map_of (cl_activeStrokes st) strokeId = None"
    and "POST env db roomId userId (R_stroke_update strokeId pts endPt) = (resp, db1, out)"
  shows "db1 = db \<and> deliver myId st (map snd out) = st
         \<and> (roomId \<noteq> [] \<and> userId \<noteq> [] \<and> map_of (users (getRoom db roomId)) userId = Some usr
              \<and> pts = Some ps \<and> ps \<noteq> []
            \<longrightarrow> resp = Inr ()
                \<and> out = [(channel roomId,
                           mk_msg env roomId userId (P_stroke_update strokeId (take 20 ps) endPt))])
         \<and> (roomId = [] \<or> userId = [] \<or> map_of (users (getRoom db roomId)) userId = None
              \<or> pts = None \<or> pts = Some []
            \<longrightarrow> isl resp \<and> out = [])"
  using assms
  by (auto simp: POST_def Let_def deliver_def mk_msg_def comp_def
      split: if_splits option.splits)

theorem stale_stroke_update_changes_no_state_witness:
  "map_of (cl_activeStrokes client0) ''ghost'' = None
   \<and> map_of (users (getRoom db_A ''R1'')) ''A'' = Some alice
   \<and> (case POST env0 db_A ''R1'' ''A'' (R_stroke_update ''ghost'' (Some [pt 1 1]) None) of
        (resp, db1, out) \<Rightarrow>
          resp = Inr () \<and> db1 = db_A
          \<and> out = [(channel ''R1'',
                     mk_msg env0 ''R1'' ''A'' (P_stroke_update ''ghost'' [pt 1 1] None))]
          \<and> deliver ''B'' client0 (map snd out) = client0)
   \<and> (case POST env0 db_A ''R1'' ''A'' (R_stroke_update ''ghost'' (Some []) None) of
        (resp, db1, out) \<Rightarrow> isl resp \<and> db1 = db_A \<and> out = [])"
proof -
  have fresh: "map_of (cl_activeStrokes client0) ''ghost'' = None"
    by (simp add: client0_def)
  have member: "map_of (users (getRoom db_A ''R1'')) ''A'' = Some alice"
    by (simp add: getRoom_def db_A_def room_A_def empty_room_def new_Map_def)
  obtain resp db1 out where
    post: "POST env0 db_A ''R1'' ''A'' (R_stroke_update ''ghost'' (Some [pt 1 1]) None) = (resp, db1, out)"
    by (cases "POST env0 db_A ''R1'' ''A'' (R_stroke_update ''ghost'' (Some [pt 1 1]) None)")
  obtain resp2 db2 out2 where
    post2: "POST env0 db_A ''R1'' ''A'' (R_stroke_update ''ghost'' (Some []) None) = (resp2, db2, out2)"
    by (cases "POST env0 db_A ''R1'' ''A'' (R_stroke_update ''ghost'' (Some []) None)")
  from stale_stroke_update_changes_no_state
    [OF fresh post, of "''B''" alice "[pt 1 1]"] member
  have a: "resp = Inr () \<and> db1 = db_A
      \<and> out = [(channel ''R1'', mk_msg env0 ''R1'' ''A'' (P_stroke_update ''ghost'' [pt 1 1] None))]
      \<and> deliver ''B'' client0 (map snd out) = client0"
    by auto
  from stale_stroke_update_changes_no_state [OF fresh post2, of "''B''"]
  have b: "isl resp2 \<and> db2 = db_A \<and> out2 = []"
    by simp
  from fresh member a b show ?thesis
    unfolding post post2 by auto
qed

text \<open>
  The claim as stated fails on the broadcast stream: for a strokeId that was never started,
  the request succeeds and one \<^verbatim>\<open>stroke_update\<close> message is published on the room's
  channel.
\<close>

theorem stale_stroke_update_is_relayed_counterexample:
  "map_of (cl_activeStrokes client0) ''ghost'' = None
   \<and> strokes (getRoom db_A ''R1'') = []
   \<and> POST env0 db_A ''R1'' ''A'' (R_stroke_update ''ghost'' (Some [pt 1 1]) None)
       = (Inr (), db_A,
          [(channel ''R1'', mk_msg env0 ''R1'' ''A'' (P_stroke_update ''ghost'' [pt 1 1] None))])"
  by (simp add: POST_def getRoom_def db_A_def room_A_def empty_room_def new_Map_def client0_def)

section \<open>Membership\<close>

text \<open>
  C7, as the code has it. When a member disconnects, its Member and Cursor entries are
  removed and the room is written back to the store with an expiry of 24 hours. The room is
  not deleted, also when no member is left: the canonical strokes, the operation log and the
  redo stack stay as they were.
\<close>

theorem leave_keeps_room:
  assumes "cancel env db roomId userId = (db1, out)"
  shows "(\<exists>saved. db1 (room_key roomId) = Some (86400, saved))
         \<and> users (getRoom db1 roomId) = AList.delete userId (users (getRoom db roomId))
         \<and> cursors (getRoom db1 roomId) = AList.delete userId (cursors (getRoom db roomId))
         \<and> strokes (getRoom db1 roomId) = strokes (getRoom db roomId)
         \<and> operations (getRoom db1 roomId) = operations (getRoom db roomId)
         \<and> redoStack (getRoom db1 roomId) = redoStack (getRoom db roomId)"
proof -
  have du: "new_Map (AList.delete userId (users (getRoom db roomId)))
              = AList.delete userId (users (getRoom db roomId))"
    by (rule new_Map_distinct_id) (simp add: AList.distinct_delete distinct_users_getRoom)
  have dc: "new_Map (AList.delete userId (cursors (getRoom db roomId)))
              = AList.delete userId (cursors (getRoom db roomId))"
    by (rule new_Map_distinct_id) (simp add: AList.distinct_delete distinct_cursors_getRoom)
  from assms have db1: "db1 = saveRoom db roomId
      ((getRoom db roomId)\<lparr>users := AList.delete userId (users (getRoom db roomId)),
                            cursors := AList.delete userId (cursors (getRoom db roomId))\<rparr>)"
    by (simp add: cancel_def Let_def)
  show ?thesis
    unfolding db1 getRoom_saveRoom by (simp add: du dc saveRoom_def)
qed

theorem leave_keeps_room_witness:
  "(case cancel env0 (db_with (room_A\<lparr>strokes := [s1], operations := [op_of s1]\<rparr>)) ''R1'' ''A'' of
      (db1, out) \<Rightarrow>
        users (getRoom db1 ''R1'') = [] \<and> strokes (getRoom db1 ''R1'') = [s1]
        \<and> operations (getRoom db1 ''R1'') = [op_of s1]
        \<and> (\<exists>saved. db1 (room_key ''R1'') = Some (86400, saved)))"
proof -
  let ?db = "db_with (room_A\<lparr>strokes := [s1], operations := [op_of s1]\<rparr>)"
  have room: "getRoom ?db ''R1'' = room_A\<lparr>strokes := [s1], operations := [op_of s1]\<rparr>"
    by (rule getRoom_db_with) (simp_all add: room_A_def empty_room_def)
  obtain db1 out where leave: "cancel env0 ?db ''R1'' ''A'' = (db1, out)"
    by (cases "cancel env0 ?db ''R1'' ''A''")
  from leave_keeps_room [OF leave] show ?thesis
    unfolding leave room by (simp add: room_A_def empty_room_def)
qed

text \<open>
  The claim as stated fails: A is the only member of a room that holds the stroke \<open>s1\<close>;
  after A has left, the store still has the room under its key, with the stroke and its
  Operation and with no member.
\<close>

theorem last_leave_keeps_room_counterexample:
  "users (getRoom (db_with (room_A\<lparr>strokes := [s1], operations := [op_of s1]\<rparr>)) ''R1'') = [(''A'', alice)]
   \<and> fst (cancel env0 (db_with (room_A\<lparr>strokes := [s1], operations := [op_of s1]\<rparr>)) ''R1'' ''A'')
        (room_key ''R1'')
       = Some (86400, empty_room\<lparr>strokes := [s1], operations := [op_of s1]\<rparr>)"
  by (simp add: cancel_def Let_def getRoom_def saveRoom_def db_with_def room_A_def empty_room_def
      new_Map_def)

text \<open>
  C8, as the code has it. A join that finds 100 members in the room is answered with
  \<^verbatim>\<open>'Room is full'\<close>; the store is not written and nothing is broadcast, so no Member and
  no Cursor entry exists for the attempt. A join below the cap writes exactly one Member
  entry, under the user id of the request: the member count grows by one when that id is not
  yet a member and stays as it was when it is (the entry is replaced). The cursors are not
  touched.
\<close>

theorem join_respects_capacity:
  assumes "GET env db roomIdParam userNameParam userIdParam = (resp, db1, out)"
    and "roomId = param_or roomIdParam ''default''"
    and "userId = param_or userIdParam (newId env)"
  shows "if 100 \<le> length (users (getRoom db roomId))
         then resp = RoomFull \<and> db1 = db \<and> out = []
         else (\<exists>usr sync. resp = Stream usr sync \<and> user_id usr = userId
                 \<and> users (getRoom db1 roomId) = AList.update userId usr (users (getRoom db roomId)))
              \<and> length (users (getRoom db1 roomId))
                  = (if map_of (users (getRoom db roomId)) userId = None
                     then Suc (length (users (getRoom db roomId)))
                     else length (users (getRoom db roomId)))
              \<and> cursors (getRoom db1 roomId) = cursors (getRoom db roomId)"
proof (cases "100 \<le> length (users (getRoom db roomId))")
  case True
  with assms show ?thesis by (simp add: GET_def Let_def)
next
  case False
  define usr where "usr = \<lparr>user_id = userId, user_name = param_or userNameParam ''Anonymous'',
    user_color = randomColor env, joinedAt = now env, isOnline = True\<rparr>"
  have du: "new_Map (AList.update userId usr (users (getRoom db roomId)))
              = AList.update userId usr (users (getRoom db roomId))"
    by (rule new_Map_distinct_id) (simp add: AList.distinct_update distinct_users_getRoom)
  have dc: "new_Map (cursors (getRoom db roomId)) = cursors (getRoom db roomId)"
    by (rule new_Map_distinct_id) (rule distinct_cursors_getRoom)
  from assms False have db1: "db1 = saveRoom db roomId
      ((getRoom db roomId)\<lparr>users := AList.update userId usr (users (getRoom db roomId))\<rparr>)"
    and resp: "\<exists>sync. resp = Stream usr sync"
    by (auto simp: GET_def Let_def usr_def)
  have room1: "users (getRoom db1 roomId) = AList.update userId usr (users (getRoom db roomId))"
    "cursors (getRoom db1 roomId) = cursors (getRoom db roomId)"
    unfolding db1 getRoom_saveRoom by (simp_all add: du dc)
  from resp have "\<exists>u sync. resp = Stream u sync \<and> user_id u = userId
      \<and> users (getRoom db1 roomId) = AList.update userId u (users (getRoom db roomId))"
    using room1(1) by (auto simp: usr_def)
  with False room1 show ?thesis
    by (simp add: length_update)
qed

theorem join_respects_capacity_witness:
  "100 \<le> length (users (getRoom db_full ''R1''))
   \<and> map_of (users (getRoom db_full ''R1'')) ''Z'' = None
   \<and> GET env0 db_full (Some ''R1'') (Some ''Zed'') (Some ''Z'') = (RoomFull, db_full, [])
   \<and> length (users (getRoom db_A ''R1'')) = 1
   \<and> (case GET env0 db_A (Some ''R1'') (Some ''Bob'') (Some ''B'') of
        (resp, db1, out) \<Rightarrow> length (users (getRoom db1 ''R1'')) = 2)"
proof -
  have full: "100 \<le> length (users (getRoom db_full ''R1''))"
    by (simp add: users_db_full crowd_def)
  have "map_of (crowd 100) ''Z'' = None"
    by (auto simp: map_of_eq_None_iff crowd_def)
  then have absent: "map_of (users (getRoom db_full ''R1'')) ''Z'' = None"
    by (simp add: users_db_full)
  obtain resp db1 out where
    get: "GET env0 db_full (Some ''R1'') (Some ''Zed'') (Some ''Z'') = (resp, db1, out)"
    by (cases "GET env0 db_full (Some ''R1'') (Some ''Zed'') (Some ''Z'')")
  have rejected: "resp = RoomFull \<and> db1 = db_full \<and> out = []"
    using join_respects_capacity [OF get, of "''R1''" "''Z''"] full
    by (simp add: param_or_def)
  have room: "users (getRoom db_A ''R1'') = [(''A'', alice)]"
    by (simp add: getRoom_def db_A_def room_A_def empty_room_def new_Map_def)
  obtain resp2 db2 out2 where
    get2: "GET env0 db_A (Some ''R1'') (Some ''Bob'') (Some ''B'') = (resp2, db2, out2)"
    by (cases "GET env0 db_A (Some ''R1'') (Some ''Bob'') (Some ''B'')")
  have joined: "length (users (getRoom db2 ''R1'')) = 2"
    using join_respects_capacity [OF get2, of "''R1''" "''B''"]
    by (simp add: param_or_def room)
  from full absent rejected joined show ?thesis
    unfolding get get2 by (simp add: room)
qed

text \<open>
  The claim as stated fails below the cap: A is the only member and joins again under the
  same user id (the client reconnects with the id it already has); the join is admitted and
  the room still has one member, not two.
\<close>

theorem rejoin_counterexample:
  "length (users (getRoom db_A ''R1'')) = 1
   \<and> (case GET env0 db_A (Some ''R1'') (Some ''Alice'') (Some ''A'') of
        (resp, db1, out) \<Rightarrow> resp \<noteq> RoomFull \<and> length (users (getRoom db1 ''R1'')) = 1)"
  by (simp add: GET_def Let_def param_or_def getRoom_def saveRoom_def db_A_def room_A_def
      empty_room_def new_Map_def)

section \<open>Starting a stroke\<close>

text \<open>
  C9, as the code has it. The \<^verbatim>\<open>stroke_start\<close> case validates nothing: whatever the width
  and the point are, it answers with success, leaves the room as it is, saves nothing and
  broadcasts the new stroke, and for a member the whole request succeeds with the store
  unchanged. For every finite numeric width other than zero the width of the stroke is the
  given width clamped to the interval from 1 to 100, and the width is never a cause of
  rejection.
\<close>

theorem stroke_start_never_rejects:
  "(\<exists>stroke. handle env roomId userId usr room (R_stroke_start strokeId point col w ttype)
               = Inr (room, False, [mk_msg env roomId userId (P_stroke_start stroke)])
      \<and> (w = JNumber (Fin r) \<and> r \<noteq> 0 \<longrightarrow> width stroke = Fin (max 1 (min 100 r))))
   \<and> (roomId \<noteq> [] \<and> userId \<noteq> [] \<and> map_of (users (getRoom db roomId)) userId = Some usr
      \<longrightarrow> fst (POST env db roomId userId (R_stroke_start strokeId point col w ttype)) = Inr ()
          \<and> fst (snd (POST env db roomId userId (R_stroke_start strokeId point col w ttype))) = db)"
  by (auto simp: Let_def clamp_finite POST_def)

theorem stroke_start_never_rejects_witness:
  "(\<exists>stroke. handle env0 ''R1'' ''A'' alice room_A
               (R_stroke_start ''s9'' (pt 1 1) ''#FF0000'' (JNumber (Fin 250)) Brush)
             = Inr (room_A, False, [mk_msg env0 ''R1'' ''A'' (P_stroke_start stroke)])
      \<and> width stroke = Fin 100)
   \<and> (\<exists>stroke. handle env0 ''R1'' ''A'' alice room_A
               (R_stroke_start ''s9'' (pt 1 1) ''#FF0000'' (JNumber (Fin (1/2))) Brush)
             = Inr (room_A, False, [mk_msg env0 ''R1'' ''A'' (P_stroke_start stroke)])
      \<and> width stroke = Fin 1)
   \<and> map_of (users (getRoom db_A ''R1'')) ''A'' = Some alice
   \<and> fst (POST env0 db_A ''R1'' ''A''
            (R_stroke_start ''s9'' null_point ''#FF0000'' (JOther True NaN) Brush)) = Inr ()
   \<and> fst (snd (POST env0 db_A ''R1'' ''A''
            (R_stroke_start ''s9'' null_point ''#FF0000'' (JOther True NaN) Brush))) = db_A"
proof -
  from stroke_start_never_rejects
    [of env0 "''R1''" "''A''" alice room_A "''s9''" "pt 1 1" "''#FF0000''" "JNumber (Fin 250)" Brush 250,
     THEN conjunct1]
  have a: "\<exists>stroke. handle env0 ''R1'' ''A'' alice room_A
               (R_stroke_start ''s9'' (pt 1 1) ''#FF0000'' (JNumber (Fin 250)) Brush)
             = Inr (room_A, False, [mk_msg env0 ''R1'' ''A'' (P_stroke_start stroke)])
      \<and> width stroke = Fin 100"
    by (elim exE conjE, intro exI conjI) simp_all
  from stroke_start_never_rejects
    [of env0 "''R1''" "''A''" alice room_A "''s9''" "pt 1 1" "''#FF0000''" "JNumber (Fin (1/2))" Brush "1/2",
     THEN conjunct1]
  have b: "\<exists>stroke. handle env0 ''R1'' ''A'' alice room_A
               (R_stroke_start ''s9'' (pt 1 1) ''#FF0000'' (JNumber (Fin (1/2))) Brush)
             = Inr (room_A, False, [mk_msg env0 ''R1'' ''A'' (P_stroke_start stroke)])
      \<and> width stroke = Fin 1"
    by (elim exE conjE, intro exI conjI) simp_all
  have member: "map_of (users (getRoom db_A ''R1'')) ''A'' = Some alice"
    by (simp add: getRoom_def db_A_def room_A_def empty_room_def new_Map_def)
  from stroke_start_never_rejects
    [of env0 "''R1''" "''A''" alice _ "''s9''" null_point "''#FF0000''" "JOther True NaN" Brush _ db_A,
     THEN conjunct2]
    member
  have c: "fst (POST env0 db_A ''R1'' ''A''
            (R_stroke_start ''s9'' null_point ''#FF0000'' (JOther True NaN) Brush)) = Inr ()
   \<and> fst (snd (POST env0 db_A ''R1'' ''A''
            (R_stroke_start ''s9'' null_point ''#FF0000'' (JOther True NaN) Brush))) = db_A"
    by simp
  from a b c member show ?thesis by blast
qed

text \<open>
  The claim as stated fails: a width that is not numeric (a string that does not read as a
  number) and a point whose x coordinate is null are answered with success, and the stroke
  that is broadcast has the width NaN; the numeric width 0 becomes 4, not 1.
\<close>

theorem stroke_start_validation_counterexample:
  "(case handle env0 ''R1'' ''A'' alice room_A
           (R_stroke_start ''s9'' null_point ''#FF0000'' (JOther True NaN) Brush) of
      Inl e \<Rightarrow> False
    | Inr (room1, saved, msgs) \<Rightarrow> room1 = room_A \<and> map started_width msgs = [Some NaN])
   \<and> (case handle env0 ''R1'' ''A'' alice room_A
           (R_stroke_start ''s9'' (pt 1 1) ''#FF0000'' (JNumber (Fin 0)) Brush) of
      Inl e \<Rightarrow> False
    | Inr (room1, saved, msgs) \<Rightarrow> map started_width msgs = [Some (Fin 4)])"
  by (simp add: Let_def js_or_def Math_min_def Math_max_def mk_msg_def)

section \<open>The undo and redo flags of outbound messages\<close>

text \<open>
  C10. In every outbound message that carries the canUndo and canRedo flags, canUndo says
  that the operation log is not empty and canRedo that the redo stack is not empty, in the
  room state at the moment the message is built: the \<^verbatim>\<open>sync_state\<close> of a join against the
  room just saved, and the broadcasts of \<^verbatim>\<open>stroke_end\<close>, of an undo with a log that is not
  empty and of a redo with a redo stack that is not empty against the room the case leaves,
  the constants true and false written in these cases included. No message of any other
  request carries flags that differ from its room.
\<close>

theorem outbound_flags_match_state:
  "(GET env db roomIdParam userNameParam userIdParam = (Stream usr sync, db1, out)
      \<longrightarrow> carried_flags (msg_payload sync)
            = Some (room_flags (getRoom db1 (param_or roomIdParam ''default''))))
   \<and> (handle env roomId userId usr2 room (R_stroke_end strokeId stroke) = Inr (room1, saved1, msgs1)
      \<longrightarrow> map (carried_flags \<circ> msg_payload) msgs1 = [Some (room_flags room1)])
   \<and> (operations room \<noteq> [] \<and> handle env roomId userId usr2 room R_undo = Inr (room2, saved2, msgs2)
      \<longrightarrow> map (carried_flags \<circ> msg_payload) msgs2 = [Some (room_flags room2)])
   \<and> (redoStack room \<noteq> [] \<and> handle env roomId userId usr2 room R_redo = Inr (room3, saved3, msgs3)
      \<longrightarrow> map (carried_flags \<circ> msg_payload) msgs3 = [Some (room_flags room3)])
   \<and> (handle env roomId userId usr2 room req = Inr (room4, saved4, msgs4)
      \<longrightarrow> list_all (\<lambda>m. carried_flags (msg_payload m) = None
                        \<or> carried_flags (msg_payload m) = Some (room_flags room4)) msgs4)"
proof (intro conjI impI)
  assume "GET env db roomIdParam userNameParam userIdParam = (Stream usr sync, db1, out)"
  then show "carried_flags (msg_payload sync)
            = Some (room_flags (getRoom db1 (param_or roomIdParam ''default'')))"
    by (auto simp: GET_def Let_def getRoom_saveRoom room_flags_def mk_msg_def split: if_splits)
next
  assume "handle env roomId userId usr2 room (R_stroke_end strokeId stroke) = Inr (room1, saved1, msgs1)"
  then show "map (carried_flags \<circ> msg_payload) msgs1 = [Some (room_flags room1)]"
    by (auto simp: Let_def room_flags_def mk_msg_def)
next
  assume "operations room \<noteq> [] \<and> handle env roomId userId usr2 room R_undo = Inr (room2, saved2, msgs2)"
  then show "map (carried_flags \<circ> msg_payload) msgs2 = [Some (room_flags room2)]"
    by (auto simp: Let_def room_flags_def mk_msg_def)
next
  assume "redoStack room \<noteq> [] \<and> handle env roomId userId usr2 room R_redo = Inr (room3, saved3, msgs3)"
  then show "map (carried_flags \<circ> msg_payload) msgs3 = [Some (room_flags room3)]"
    by (auto simp: Let_def room_flags_def mk_msg_def)
next
  assume "handle env roomId userId usr2 room req = Inr (room4, saved4, msgs4)"
  then show "list_all (\<lambda>m. carried_flags (msg_payload m) = None
                        \<or> carried_flags (msg_payload m) = Some (room_flags room4)) msgs4"
    by (cases req)
      (auto simp: Let_def room_flags_def mk_msg_def split: if_splits option.splits)
qed

theorem outbound_flags_match_state_witness:
  "(case GET env0 db_A (Some ''R1'') (Some ''Bob'') (Some ''B'') of
      (resp, db1, out) \<Rightarrow>
        (case resp of RoomFull \<Rightarrow> False
         | Stream usr sync \<Rightarrow> carried_flags (msg_payload sync) = Some (False, False)))
   \<and> (case handle env0 ''R1'' ''A'' alice room_12 R_undo of
        Inl e \<Rightarrow> False
      | Inr (room2, saved2, msgs2) \<Rightarrow>
          operations room2 = [op_of s1] \<and> redoStack room2 = [op_of s2]
          \<and> map (carried_flags \<circ> msg_payload) msgs2 = [Some (True, True)])
   \<and> (case handle env0 ''R1'' ''A'' alice (room_A\<lparr>strokes := [s1], redoStack := [op_of s1]\<rparr>) R_redo of
        Inl e \<Rightarrow> False
      | Inr (room3, saved3, msgs3) \<Rightarrow>
          operations room3 = [op_of s1] \<and> redoStack room3 = []
          \<and> map (carried_flags \<circ> msg_payload) msgs3 = [Some (True, False)])"
proof -
  obtain usr sync db1 out where
    get: "GET env0 db_A (Some ''R1'') (Some ''Bob'') (Some ''B'') = (Stream usr sync, db1, out)"
    and room: "room_flags (getRoom db1 ''R1'') = (False, False)"
    by (simp add: GET_def Let_def param_or_def getRoom_def saveRoom_def db_A_def room_A_def
        empty_room_def new_Map_def room_flags_def)
  obtain room2 saved2 msgs2 where
    undo: "handle env0 ''R1'' ''A'' alice room_12 R_undo = Inr (room2, saved2, msgs2)"
    and log: "operations room2 = [op_of s1]" "redoStack room2 = [op_of s2]"
    by (simp add: Let_def room_12_def room_A_def empty_room_def)
  have nonempty: "operations room_12 \<noteq> []"
    by (simp add: room_12_def)
  note inst = outbound_flags_match_state
    [of env0 db_A "Some ''R1''" "Some ''Bob''" "Some ''B''" usr sync db1 out
        "''R1''" "''A''" alice room_12 _ _ _ _ _ room2 saved2 msgs2]
  from inst get room have a: "carried_flags (msg_payload sync) = Some (False, False)"
    by (simp add: param_or_def)
  from inst undo nonempty have b: "map (carried_flags \<circ> msg_payload) msgs2 = [Some (room_flags room2)]"
    by blast
  obtain room3 saved3 msgs3 where
    redo: "handle env0 ''R1'' ''A'' alice (room_A\<lparr>strokes := [s1], redoStack := [op_of s1]\<rparr>) R_redo
             = Inr (room3, saved3, msgs3)"
    and log3: "operations room3 = [op_of s1]" "redoStack room3 = []"
    by (simp add: Let_def room_A_def empty_room_def)
  have pending: "redoStack (room_A\<lparr>strokes := [s1], redoStack := [op_of s1]\<rparr>) \<noteq> []"
    by simp
  from outbound_flags_match_state
    [of env0 db_A "Some ''R1''" "Some ''Bob''" "Some ''B''" usr sync db1 out
        "''R1''" "''A''" alice "room_A\<lparr>strokes := [s1], redoStack := [op_of s1]\<rparr>"
        _ _ _ _ _ _ _ _ room3 saved3 msgs3]
    redo pending
  have c: "map (carried_flags \<circ> msg_payload) msgs3 = [Some (room_flags room3)]"
    by blast
  from a b c log log3 show ?thesis
    unfolding get undo redo by (simp add: room_flags_def)
qed

end
